theory Spec2Isabelle
  imports Complex_Main
begin

section \<open>The adaptive weighted selector\<close>

text \<open>
  The selector of \<^verbatim>\<open>createAdaptiveSelector\<close> keeps one \<^verbatim>\<open>CharacterWeight\<close> per
  character in a \<^verbatim>\<open>Map\<close>, reads the wall clock with \<^verbatim>\<open>Date.now()\<close> and draws
  random numbers from the module-level generator \<^verbatim>\<open>random\<close>.

  JavaScript numbers are idealised: the counters are natural numbers (they start at
  0 or 1 and are only incremented or reset to 0), timestamps are integers
  (milliseconds), and every other number is a real. Rounding of IEEE doubles is not
  modelled.
\<close>

subsection \<open>Data\<close>

record CharacterWeight =
  correct :: nat
  wrong :: nat
  recentMisses :: "int list"
  lastSeen :: int
  consecutiveCorrect :: nat
  consecutiveWrong :: nat

text \<open>
  Everything the functions of one selector instance can read or change: the map
  \<^verbatim>\<open>characterWeights\<close> of the closure, the clock and the generator. The clock is
  the sequence of values that successive calls of \<^verbatim>\<open>Date.now()\<close> return, with the
  number of calls made so far; the generator is the sequence of its successive
  draws from the unit interval, with the number of draws made so far. Both
  sequences are parameters: the library and the runtime are not part of the
  repository.
\<close>

record world =
  characterWeights :: "string \<rightharpoonup> CharacterWeight"
  clock :: "nat \<Rightarrow> int"
  ticks :: nat
  draws :: "nat \<Rightarrow> real"
  drawn :: nat

subsection \<open>The runtime: clock, generator, array reads, truthiness\<close>

definition Date_now :: "world \<Rightarrow> int \<times> world" where
  "Date_now w = (clock w (ticks w), w\<lparr>ticks := Suc (ticks w)\<rparr>)"

text \<open>\<^verbatim>\<open>random.real(lo, hi)\<close>: the next unit draw, scaled to the interval.\<close>

definition random_real :: "real \<Rightarrow> real \<Rightarrow> world \<Rightarrow> real \<times> world" where
  "random_real lo hi w =
     (lo + draws w (drawn w) * (hi - lo), w\<lparr>drawn := Suc (drawn w)\<rparr>)"

text \<open>\<^verbatim>\<open>random.integer(lo, hi)\<close>: the next unit draw, scaled to the integers lo..hi.\<close>

definition random_integer :: "int \<Rightarrow> int \<Rightarrow> world \<Rightarrow> int \<times> world" where
  "random_integer lo hi w =
     (lo + \<lfloor>draws w (drawn w) * real_of_int (hi - lo + 1)\<rfloor>, w\<lparr>drawn := Suc (drawn w)\<rparr>)"

text \<open>An array read \<^verbatim>\<open>xs[i]\<close>; \<open>None\<close> is JavaScript's \<^verbatim>\<open>undefined\<close>.\<close>

definition at_index :: "'a list \<Rightarrow> int \<Rightarrow> 'a option" where
  "at_index xs i = (if 0 \<le> i \<and> i < int (length xs) then Some (xs ! nat i) else None)"

text \<open>
  An optional string argument used as a condition: \<^verbatim>\<open>undefined\<close> and the empty
  string are falsy, every other string is truthy.
\<close>

fun truthy :: "string option \<Rightarrow> bool" where
  "truthy None = False"
| "truthy (Some s) = (s \<noteq> [])"

subsection \<open>The weight of a character\<close>

definition sigmoid :: "real \<Rightarrow> real \<Rightarrow> real \<Rightarrow> real" where
  "sigmoid x steepness midpoint = 1 / (1 + exp (- steepness * (x - midpoint)))"

text \<open>Factor 1, from the counters \<^verbatim>\<open>correct\<close> and \<^verbatim>\<open>wrong\<close>.\<close>

definition accuracy :: "nat \<Rightarrow> nat \<Rightarrow> real" where
  "accuracy c wr =
     (let totalAttempts = c + wr
      in if totalAttempts > 0 then real c / real totalAttempts else 0.5)"

definition accuracyWeight :: "nat \<Rightarrow> nat \<Rightarrow> real" where
  "accuracyWeight c wr = 2.5 * sigmoid (0.5 - accuracy c wr) 6 0"

text \<open>Factor 2, the \<^verbatim>\<open>reduce\<close> over the miss timestamps.\<close>

definition missBoost :: "int \<Rightarrow> real \<Rightarrow> int \<Rightarrow> real" where
  "missBoost now acc missTime =
     (let ageSeconds = real_of_int (now - missTime) / 1000
      in if ageSeconds < 30 then acc + 0.5
         else if ageSeconds < 120 then acc + 0.5 * (1 - (ageSeconds - 30) / 90)
         else acc)"

definition recentMissWeight :: "int \<Rightarrow> int list \<Rightarrow> real" where
  "recentMissWeight now misses = foldl (missBoost now) 0 misses"

text \<open>Factor 3.\<close>

definition streakPenalty :: "nat \<Rightarrow> real" where
  "streakPenalty cw = (if cw > 0 then 1 + 0.2 * sqrt (real cw) else 1)"

text \<open>Factor 4.\<close>

definition masteryCooldown :: "nat \<Rightarrow> real" where
  "masteryCooldown cc =
     (if cc \<ge> 3 then max 0.15 (1 - 0.15 * min (real cc - 2) 5) else 1)"

text \<open>Factor 5.\<close>

definition freshnessBoost :: "int \<Rightarrow> int \<Rightarrow> real" where
  "freshnessBoost now seen =
     (let timeSinceLastSeen = real_of_int (now - seen) / 1000
      in if timeSinceLastSeen < 5 then 0.3 else 1)"

text \<open>Factor 6, from the size of the pool and one draw of the generator.\<close>

definition explorationFactor :: "string list \<Rightarrow> world \<Rightarrow> real \<times> world" where
  "explorationFactor allChars w =
     (if length allChars > 20
      then (let (u, w') = random_real 0 1 w in (0.9 + 0.1 * u, w'))
      else (let (u, w') = random_real 0 1 w in (0.8 + 0.2 * u, w')))"

definition finalWeight :: "CharacterWeight \<Rightarrow> int \<Rightarrow> real \<Rightarrow> real" where
  "finalWeight cw now exploration =
     accuracyWeight (correct cw) (wrong cw) *
     (1 + recentMissWeight now (recentMisses cw)) *
     streakPenalty (consecutiveWrong cw) *
     masteryCooldown (consecutiveCorrect cw) *
     freshnessBoost now (lastSeen cw) *
     exploration"

text \<open>
  \<^verbatim>\<open>calculateWeight\<close> reads the clock before it looks at the record, and draws
  from the generator only when there is a record.
\<close>

definition calculateWeight :: "string \<Rightarrow> string list \<Rightarrow> world \<Rightarrow> real \<times> world" where
  "calculateWeight char allChars w =
     (let weight = characterWeights w char;
          (now, w1) = Date_now w
      in case weight of
           None \<Rightarrow> (1.0, w1)
         | Some cw \<Rightarrow>
             (let (exploration, w2) = explorationFactor allChars w1
              in (max 0.1 (min 5.0 (finalWeight cw now exploration)), w2)))"

subsection \<open>Weighted selection\<close>

text \<open>The \<^verbatim>\<open>map\<close> over the available characters, one call of \<^verbatim>\<open>calculateWeight\<close> each.\<close>

fun weights_of :: "string list \<Rightarrow> string list \<Rightarrow> world \<Rightarrow> (string \<times> real) list \<times> world" where
  "weights_of [] chars w = ([], w)"
| "weights_of (c # cs) chars w =
     (let (wt, w1) = calculateWeight c chars w;
          (rest, w2) = weights_of cs chars w1
      in ((c, wt) # rest, w2))"

definition totalWeight :: "(string \<times> real) list \<Rightarrow> real" where
  "totalWeight weights = foldl (\<lambda>sum cw. sum + snd cw) 0 weights"

text \<open>The \<^verbatim>\<open>for\<close> loop; \<open>None\<close> when it ends without a \<^verbatim>\<open>return\<close>.\<close>

fun walk :: "real \<Rightarrow> (string \<times> real) list \<Rightarrow> string option" where
  "walk randomValue [] = None"
| "walk randomValue ((c, wt) # rest) =
     (let randomValue' = randomValue - wt
      in if randomValue' \<le> 0 then Some c else walk randomValue' rest)"

definition availableChars :: "string list \<Rightarrow> string option \<Rightarrow> string list" where
  "availableChars chars excludeChar =
     (if truthy excludeChar then filter (\<lambda>c. c \<noteq> the excludeChar) chars else chars)"

definition selectWeightedCharacter ::
    "string list \<Rightarrow> string option \<Rightarrow> world \<Rightarrow> string option \<times> world" where
  "selectWeightedCharacter chars excludeChar w =
     (let available = availableChars chars excludeChar
      in if length available = 0 then (at_index chars 0, w)
         else if length available = 1 then (at_index available 0, w)
         else
           (let (weights, w1) = weights_of available chars w;
                (randomValue, w2) = random_real 0 (totalWeight weights) w1
            in case walk randomValue weights of
                 Some c \<Rightarrow> (Some c, w2)
               | None \<Rightarrow>
                   (let (i, w3) = random_integer 0 (int (length available) - 1) w2
                    in (at_index available i, w3))))"

subsection \<open>Updates\<close>

definition updateCharacterWeight :: "string \<Rightarrow> bool \<Rightarrow> world \<Rightarrow> world" where
  "updateCharacterWeight char isCorrect w =
     (let (now, w1) = Date_now w;
          existing = characterWeights w1 char
      in case existing of
           None \<Rightarrow>
             w1\<lparr>characterWeights := (characterWeights w1)(char \<mapsto>
               \<lparr>correct = (if isCorrect then 1 else 0),
                wrong = (if isCorrect then 0 else 1),
                recentMisses = (if isCorrect then [] else [now]),
                lastSeen = now,
                consecutiveCorrect = (if isCorrect then 1 else 0),
                consecutiveWrong = (if isCorrect then 0 else 1)\<rparr>)\<rparr>
         | Some e \<Rightarrow>
             (let e1 =
                (if isCorrect
                 then e\<lparr>correct := correct e + 1,
                        consecutiveCorrect := consecutiveCorrect e + 1,
                        consecutiveWrong := 0\<rparr>
                 else e\<lparr>wrong := wrong e + 1,
                        consecutiveWrong := consecutiveWrong e + 1,
                        consecutiveCorrect := 0,
                        recentMisses :=
                          filter (\<lambda>t. now - t < 120000) (recentMisses e @ [now])\<rparr>)
              in w1\<lparr>characterWeights :=
                      (characterWeights w1)(char \<mapsto> e1\<lparr>lastSeen := now\<rparr>)\<rparr>))"

definition markCharacterSeen :: "string \<Rightarrow> world \<Rightarrow> world" where
  "markCharacterSeen char w =
     (let (now, w1) = Date_now w;
          existing = characterWeights w1 char
      in case existing of
           Some e \<Rightarrow>
             w1\<lparr>characterWeights := (characterWeights w1)(char \<mapsto> e\<lparr>lastSeen := now\<rparr>)\<rparr>
         | None \<Rightarrow>
             w1\<lparr>characterWeights := (characterWeights w1)(char \<mapsto>
               \<lparr>correct = 0, wrong = 0, recentMisses = [], lastSeen = now,
                consecutiveCorrect = 0, consecutiveWrong = 0\<rparr>)\<rparr>)"

definition reset :: "world \<Rightarrow> world" where
  "reset w = w\<lparr>characterWeights := Map.empty\<rparr>"

definition getCharacterWeight :: "string \<Rightarrow> world \<Rightarrow> CharacterWeight option" where
  "getCharacterWeight char w = characterWeights w char"

subsection \<open>The instance: its five methods, called in any order\<close>

datatype call =
    SelectWeightedCharacter "string list" "string option"
  | UpdateCharacterWeight string bool
  | MarkCharacterSeen string
  | Reset
  | GetCharacterWeight string

fun perform :: "world \<Rightarrow> call \<Rightarrow> world" where
  "perform w (SelectWeightedCharacter chars excludeChar) =
     snd (selectWeightedCharacter chars excludeChar w)"
| "perform w (UpdateCharacterWeight char isCorrect) = updateCharacterWeight char isCorrect w"
| "perform w (MarkCharacterSeen char) = markCharacterSeen char w"
| "perform w Reset = reset w"
| "perform w (GetCharacterWeight char) = w"

definition run :: "call list \<Rightarrow> world \<Rightarrow> world" where
  "run calls w = foldl perform w calls"

text \<open>
  A freshly created selector: the map is empty; the clock and the generator are
  whatever they are.
\<close>

definition createAdaptiveSelector :: "(nat \<Rightarrow> int) \<Rightarrow> (nat \<Rightarrow> real) \<Rightarrow> world" where
  "createAdaptiveSelector nows us =
     \<lparr>characterWeights = Map.empty, clock = nows, ticks = 0, draws = us, drawn = 0\<rparr>"

text \<open>The three kana of the end-to-end scenario, as their UTF-8 bytes.\<close>

definition kana_a :: string where
  "kana_a = [CHR 0xE3, CHR 0x81, CHR 0x82]"

definition kana_i :: string where
  "kana_i = [CHR 0xE3, CHR 0x81, CHR 0x84]"

definition kana_u :: string where
  "kana_u = [CHR 0xE3, CHR 0x81, CHR 0x86]"

section \<open>Properties\<close>

subsection \<open>Weight bounds\<close>

lemma calculateWeight_cases:
  "fst (calculateWeight char allChars w) =
     (case characterWeights w char of
        None \<Rightarrow> 1
      | Some cw \<Rightarrow>
          max 0.1 (min 5.0 (finalWeight cw (clock w (ticks w))
            (fst (explorationFactor allChars (w\<lparr>ticks := Suc (ticks w)\<rparr>))))))"
  by (simp add: calculateWeight_def Date_now_def split: option.split prod.split)

text \<open>
  Claim C1. Whatever the record map, the clock and the generator hold, and whether
  or not the character has a record, the weight that \<^verbatim>\<open>calculateWeight\<close> returns is
  at least 0.1 and at most 5.0.
\<close>

theorem calculateWeight_bounds:
  "0.1 \<le> fst (calculateWeight char allChars w) \<and> fst (calculateWeight char allChars w) \<le> 5.0"
  unfolding calculateWeight_cases
  by (cases "characterWeights w char") (simp_all add: max_def min_def)

subsection \<open>The accuracy factor\<close>

lemma exp3_lower: "(19::real) \<le> exp 3"
proof -
  have "1 + (1/4) + (1/4)\<^sup>2 / 2 \<le> exp (1/4 :: real)"
    by (rule exp_lower_Taylor_quadratic) simp
  then have "(41/32 :: real) \<le> exp (1/4)" by (simp add: power2_eq_square)
  then have "(41/32 :: real) ^ 12 \<le> exp (1/4) ^ 12"
    by (intro power_mono) simp_all
  also have "exp (1/4 :: real) ^ 12 = exp (of_nat 12 * (1/4))"
    by (rule exp_of_nat_mult [symmetric])
  also have "\<dots> = exp 3" by simp
  finally have "(41/32 :: real) ^ 12 \<le> exp 3" .
  moreover have "(19::real) \<le> (41/32) ^ 12" by (simp add: power_divide)
  ultimately show ?thesis by linarith
qed

lemma exp3_upper: "exp 3 \<le> (22::real)"
proof -
  have "exp (1/16 :: real) \<le> 1 + (1/16) + (1/16)\<^sup>2"
    by (rule exp_bound) simp_all
  then have "exp (1/16 :: real) \<le> 273/256" by (simp add: power2_eq_square)
  then have "exp (1/16 :: real) ^ 48 \<le> (273/256) ^ 48"
    by (intro power_mono) simp_all
  moreover have "exp (1/16 :: real) ^ 48 = exp (of_nat 48 * (1/16))"
    by (rule exp_of_nat_mult [symmetric])
  moreover have "exp (of_nat 48 * (1/16)) = exp (3::real)" by simp
  moreover have "(273/256 :: real) ^ 48 \<le> 22" by (simp add: power_divide)
  ultimately show ?thesis by linarith
qed

lemma exp_minus3_upper: "exp (- 3) \<le> (1/19 :: real)"
proof -
  have "exp (- 3 :: real) = 1 / exp 3" by (simp add: exp_minus inverse_eq_divide)
  also have "\<dots> \<le> 1 / 19" using exp3_lower by (intro divide_left_mono) simp_all
  finally show ?thesis .
qed

lemma accuracy_none: "accuracy 0 0 = 1/2"
  by (simp add: accuracy_def)

lemma accuracy_zero: "accuracy 0 (Suc n) = 0"
  by (simp add: accuracy_def)

lemma accuracy_half: "accuracy (Suc n) (Suc n) = 1/2"
  by (simp add: accuracy_def Let_def field_simps)

lemma accuracy_one: "accuracy (Suc n) 0 = 1"
  by (simp add: accuracy_def)

lemma accuracyWeight_zero: "accuracyWeight 0 (Suc n) = 5/2 / (1 + exp (- 3))"
  by (simp add: accuracyWeight_def sigmoid_def accuracy_zero)

lemma accuracyWeight_half: "accuracyWeight (Suc n) (Suc n) = 5/4"
  by (simp add: accuracyWeight_def sigmoid_def accuracy_half)

lemma accuracyWeight_one: "accuracyWeight (Suc n) 0 = 5/2 / (1 + exp 3)"
  by (simp add: accuracyWeight_def sigmoid_def accuracy_one)

lemma accuracyWeight_zero_bounds:
  "19/8 \<le> accuracyWeight 0 (Suc n)" "accuracyWeight 0 (Suc n) < 5/2"
proof -
  have pos: "0 < exp (- 3 :: real)" by simp
  have "5/2 / (1 + 1/19) \<le> 5/2 / (1 + exp (- 3 :: real))"
    using exp_minus3_upper pos by (intro divide_left_mono) (simp_all add: add_pos_pos)
  then show "19/8 \<le> accuracyWeight 0 (Suc n)" by (simp add: accuracyWeight_zero)
  have "5/2 / (1 + exp (- 3 :: real)) < 5/2 / 1"
    using pos by (intro divide_strict_left_mono) (simp_all add: add_pos_pos)
  then show "accuracyWeight 0 (Suc n) < 5/2" by (simp add: accuracyWeight_zero)
qed

lemma accuracyWeight_one_bounds:
  "5/46 \<le> accuracyWeight (Suc n) 0" "accuracyWeight (Suc n) 0 \<le> 1/8"
proof -
  have "5/2 / (1 + 22) \<le> 5/2 / (1 + exp (3 :: real))"
    using exp3_upper by (intro divide_left_mono) (simp_all add: add_pos_pos)
  then show "5/46 \<le> accuracyWeight (Suc n) 0" by (simp add: accuracyWeight_one)
  have "5/2 / (1 + exp (3 :: real)) \<le> 5/2 / (1 + 19)"
    using exp3_lower by (intro divide_left_mono) (simp_all add: add_pos_pos)
  then show "accuracyWeight (Suc n) 0 \<le> 1/8" by (simp add: accuracyWeight_one)
qed

text \<open>
  The part of the calibration that the code meets: the accuracy factor is 2.5 times
  the logistic curve of steepness 6 at \<open>0.5 - accuracy\<close>, the accuracy is 0.5 when
  there is no attempt, and at 0% accuracy the factor is within 5% of 2.5.
\<close>

lemma accuracyWeight_formula:
  "accuracyWeight c wr = 2.5 * (1 / (1 + exp (- 6 * (0.5 - accuracy c wr))))
   \<and> accuracy 0 0 = 0.5
   \<and> \<bar>accuracyWeight 0 (Suc n) - 2.5\<bar> \<le> 0.05 * 2.5"
proof -
  have f: "accuracyWeight c wr = 2.5 * (1 / (1 + exp (- 6 * (0.5 - accuracy c wr))))"
    by (simp add: accuracyWeight_def sigmoid_def)
  have z: "\<bar>accuracyWeight 0 (Suc n) - 2.5\<bar> \<le> 0.05 * 2.5"
    using accuracyWeight_zero_bounds [of n] by simp
  from f z show ?thesis by (simp add: accuracy_none)
qed

text \<open>
  Claim C2 against the code. The comment above the factor in \<^verbatim>\<open>calculateWeight\<close>
  gives the calibration that the claim repeats: about 1.5 at 50% accuracy and about
  0.3 at 100%. The code does not reach either. For a record with one correct and
  one wrong answer the factor is exactly 1.25, outside 1.5 \<plusminus> 5%; for a record with
  one correct answer and no wrong one it is \<open>2.5 / (1 + exp 3)\<close>, at most 0.125,
  outside 0.3 \<plusminus> 5%.
\<close>

theorem accuracyWeight_calibration_missed:
  "accuracyWeight 1 1 = 1.25
   \<and> \<not> (\<bar>accuracyWeight 1 1 - 1.5\<bar> \<le> 0.05 * 1.5)
   \<and> accuracyWeight 1 0 = 2.5 / (1 + exp 3)
   \<and> accuracyWeight 1 0 \<le> 0.125
   \<and> \<not> (\<bar>accuracyWeight 1 0 - 0.3\<bar> \<le> 0.05 * 0.3)"
proof -
  have h: "accuracyWeight 1 1 = 5/4" using accuracyWeight_half [of 0] by simp
  have o: "accuracyWeight 1 0 = 5/2 / (1 + exp 3)" using accuracyWeight_one [of 0] by simp
  have ob: "accuracyWeight 1 0 \<le> 1/8" using accuracyWeight_one_bounds(2) [of 0] by simp
  have "\<not> (\<bar>accuracyWeight 1 1 - 1.5\<bar> \<le> 0.05 * 1.5)" unfolding h by simp
  moreover have "\<not> (\<bar>accuracyWeight 1 0 - 0.3\<bar> \<le> 0.05 * 0.3)" using ob by simp
  moreover have "accuracyWeight 1 0 = 2.5 / (1 + exp 3)" using o by simp
  moreover have "accuracyWeight 1 0 \<le> 0.125" using ob by simp
  moreover have "accuracyWeight 1 1 = 1.25" using h by simp
  ultimately show ?thesis by blast
qed

subsection \<open>The mastery cooldown\<close>

lemma masteryCooldown_low: "cc < 3 \<Longrightarrow> masteryCooldown cc = 1"
  by (simp add: masteryCooldown_def)

lemma masteryCooldown_mid:
  "3 \<le> cc \<Longrightarrow> cc \<le> 7 \<Longrightarrow> masteryCooldown cc = 1 - 0.15 * (real cc - 2)"
  by (simp add: masteryCooldown_def max_def min_def)

lemma masteryCooldown_high: "7 \<le> cc \<Longrightarrow> masteryCooldown cc = 1/4"
  by (simp add: masteryCooldown_def max_def min_def)

lemma masteryCooldown_antimono:
  assumes "m \<le> n"
  shows "masteryCooldown n \<le> masteryCooldown m"
proof -
  have "real m \<le> real n" using assms by simp
  then show ?thesis
    using assms by (auto simp: masteryCooldown_def max_def min_def)
qed

text \<open>
  Claim C9. The mastery cooldown is \<open>max 0.15 (1 - 0.15 * min (consecutiveCorrect - 2) 5)\<close>
  from 3 consecutive correct answers on and 1 below; at 3 it is at most 1; it never
  increases when the count grows (in particular not up to 7); from 7 on it is constant.
\<close>

theorem masteryCooldown_shape:
  "masteryCooldown cc =
     (if 3 \<le> cc then max 0.15 (1 - 0.15 * min (real cc - 2) 5) else 1)
   \<and> masteryCooldown 3 \<le> 1
   \<and> (m \<le> n \<longrightarrow> masteryCooldown n \<le> masteryCooldown m)
   \<and> (7 \<le> n \<longrightarrow> masteryCooldown n = masteryCooldown 7)"
proof -
  have "masteryCooldown 3 \<le> 1" by (simp add: masteryCooldown_mid)
  moreover have "7 \<le> n \<longrightarrow> masteryCooldown n = masteryCooldown 7"
    by (simp add: masteryCooldown_high)
  ultimately show ?thesis
    using masteryCooldown_antimono [of m n] by (simp add: masteryCooldown_def)
qed

theorem masteryCooldown_shape_witness:
  "masteryCooldown 3 = 0.85 \<and> masteryCooldown 6 \<le> masteryCooldown 4
   \<and> masteryCooldown 9 = masteryCooldown 7 \<and> masteryCooldown 7 = 0.25"
  using masteryCooldown_shape [of 3 4 6] masteryCooldown_shape [of 7 4 9]
  by (simp add: max_def min_def)

subsection \<open>Unseen characters\<close>

lemma markCharacterSeen_new:
  "markCharacterSeen char (createAdaptiveSelector nows us) =
     \<lparr>characterWeights = [char \<mapsto>
        \<lparr>correct = 0, wrong = 0, recentMisses = [], lastSeen = nows 0,
         consecutiveCorrect = 0, consecutiveWrong = 0\<rparr>],
      clock = nows, ticks = 1, draws = us, drawn = 0\<rparr>"
  by (simp add: markCharacterSeen_def createAdaptiveSelector_def Date_now_def)

lemma accuracyWeight_none: "accuracyWeight 0 0 = 5/4"
  by (simp add: accuracyWeight_def accuracy_def sigmoid_def)

lemma recentMissWeight_Nil: "recentMissWeight now [] = 0"
  by (simp add: recentMissWeight_def)

lemma streakPenalty_0: "streakPenalty 0 = 1"
  by (simp add: streakPenalty_def)

lemma masteryCooldown_0: "masteryCooldown 0 = 1"
  by (simp add: masteryCooldown_def)

lemma finalWeight_seen_only:
  "finalWeight \<lparr>correct = 0, wrong = 0, recentMisses = [], lastSeen = seen,
      consecutiveCorrect = 0, consecutiveWrong = 0\<rparr> now e =
   5/4 * freshnessBoost now seen * e"
  by (simp add: finalWeight_def accuracyWeight_none recentMissWeight_Nil streakPenalty_0
      masteryCooldown_0)

lemma explorationFactor_small:
  "length allChars \<le> 20 \<Longrightarrow>
   fst (explorationFactor allChars w) = 0.8 + 0.2 * draws w (drawn w)"
  by (simp add: explorationFactor_def random_real_def)

lemma explorationFactor_large:
  "length allChars > 20 \<Longrightarrow>
   fst (explorationFactor allChars w) = 0.9 + 0.1 * draws w (drawn w)"
  by (simp add: explorationFactor_def random_real_def)

text \<open>
  Claim C5, as amended. A character without a record weighs exactly 1.0. A character
  with a record, also one that was only marked as seen, takes the path of the six
  factors: its weight is their product, clamped to 0.1 .. 5.0 (and that value can
  be 1.0 as well).
\<close>

theorem calculateWeight_unseen_or_tracked:
  "(characterWeights w char = None \<longrightarrow> fst (calculateWeight char allChars w) = 1.0)
   \<and> (\<forall>cw. characterWeights w char = Some cw \<longrightarrow>
          fst (calculateWeight char allChars w) =
            max 0.1 (min 5.0
              (accuracyWeight (correct cw) (wrong cw) *
               (1 + recentMissWeight (clock w (ticks w)) (recentMisses cw)) *
               streakPenalty (consecutiveWrong cw) *
               masteryCooldown (consecutiveCorrect cw) *
               freshnessBoost (clock w (ticks w)) (lastSeen cw) *
               (if length allChars > 20 then 0.9 + 0.1 * draws w (drawn w)
                else 0.8 + 0.2 * draws w (drawn w)))))"
  by (simp add: calculateWeight_cases finalWeight_def explorationFactor_def random_real_def)

theorem calculateWeight_unseen_or_tracked_witness:
  "fst (calculateWeight ''b'' [''a'', ''b'']
          (markCharacterSeen ''a'' (createAdaptiveSelector (\<lambda>n. 0) (\<lambda>n. 0)))) = 1.0
   \<and> fst (calculateWeight ''a'' [''a'', ''b'']
          (markCharacterSeen ''a'' (createAdaptiveSelector (\<lambda>n. 0) (\<lambda>n. 0)))) = 0.3"
  using calculateWeight_unseen_or_tracked
    [of "markCharacterSeen ''a'' (createAdaptiveSelector (\<lambda>n. 0) (\<lambda>n. 0))" "''b''" "[''a'', ''b'']"]
    calculateWeight_unseen_or_tracked
    [of "markCharacterSeen ''a'' (createAdaptiveSelector (\<lambda>n. 0) (\<lambda>n. 0))" "''a''" "[''a'', ''b'']"]
  by (simp add: markCharacterSeen_new accuracyWeight_none recentMissWeight_Nil streakPenalty_0
      masteryCooldown_0 freshnessBoost_def)

text \<open>
  The "exactly when" of claim C5 fails from right to left: a character that was
  marked as seen at time 0 and is weighed 10 seconds later with the draw 0, in a
  pool of two, has a record and weighs 1.25 * 0.8 = 1.0.
\<close>

theorem calculateWeight_unseen_counterexample:
  "fst (calculateWeight ''a'' [''a'', ''b'']
          (markCharacterSeen ''a'' (createAdaptiveSelector (\<lambda>n. int n * 10000) (\<lambda>n. 0)))) = 1.0
   \<and> getCharacterWeight ''a''
          (markCharacterSeen ''a'' (createAdaptiveSelector (\<lambda>n. int n * 10000) (\<lambda>n. 0))) \<noteq> None"
  by (simp add: markCharacterSeen_new calculateWeight_cases finalWeight_seen_only
      explorationFactor_small getCharacterWeight_def freshnessBoost_def)

subsection \<open>Recording an answer\<close>

lemma updateCharacterWeight_new:
  assumes "characterWeights w char = None"
  shows "updateCharacterWeight char isCorrect w =
     w\<lparr>ticks := Suc (ticks w),
       characterWeights := (characterWeights w)(char \<mapsto>
         \<lparr>correct = (if isCorrect then 1 else 0),
          wrong = (if isCorrect then 0 else 1),
          recentMisses = (if isCorrect then [] else [clock w (ticks w)]),
          lastSeen = clock w (ticks w),
          consecutiveCorrect = (if isCorrect then 1 else 0),
          consecutiveWrong = (if isCorrect then 0 else 1)\<rparr>)\<rparr>"
  using assms by (simp add: updateCharacterWeight_def Date_now_def)

lemma updateCharacterWeight_correct:
  assumes "characterWeights w char = Some e"
  shows "updateCharacterWeight char True w =
     w\<lparr>ticks := Suc (ticks w),
       characterWeights := (characterWeights w)(char \<mapsto>
         \<lparr>correct = correct e + 1,
          wrong = wrong e,
          recentMisses = recentMisses e,
          lastSeen = clock w (ticks w),
          consecutiveCorrect = consecutiveCorrect e + 1,
          consecutiveWrong = 0\<rparr>)\<rparr>"
  using assms by (cases e) (simp add: updateCharacterWeight_def Date_now_def)

lemma updateCharacterWeight_wrong:
  assumes "characterWeights w char = Some e"
  shows "updateCharacterWeight char False w =
     w\<lparr>ticks := Suc (ticks w),
       characterWeights := (characterWeights w)(char \<mapsto>
         \<lparr>correct = correct e,
          wrong = wrong e + 1,
          recentMisses =
            filter (\<lambda>t. clock w (ticks w) - t < 120000) (recentMisses e @ [clock w (ticks w)]),
          lastSeen = clock w (ticks w),
          consecutiveCorrect = 0,
          consecutiveWrong = consecutiveWrong e + 1\<rparr>)\<rparr>"
  using assms by (cases e) (simp add: updateCharacterWeight_def Date_now_def)

text \<open>
  Claim C3. With \<open>now\<close> the time that \<^verbatim>\<open>updateCharacterWeight\<close> reads: when the
  character has no record, the new record counts the one answer (1 correct and 0
  wrong, or the reverse, the same for the consecutive counters), its misses are
  \<open>[now]\<close> after a wrong answer and empty after a correct one, and it was last seen
  \<open>now\<close>. When the character has a record, a correct answer adds 1 to \<open>correct\<close> and
  to \<open>consecutiveCorrect\<close> and sets \<open>consecutiveWrong\<close> to 0; a wrong answer adds 1
  to \<open>wrong\<close> and to \<open>consecutiveWrong\<close>, sets \<open>consecutiveCorrect\<close> to 0, appends
  \<open>now\<close> to the misses and keeps of them those less than 120000 ms old; both set
  \<open>lastSeen\<close> to \<open>now\<close> and leave every other field as it was.
\<close>

theorem updateCharacterWeight_record:
  "(getCharacterWeight char w = None \<longrightarrow>
      getCharacterWeight char (updateCharacterWeight char isCorrect w) =
        Some \<lparr>correct = (if isCorrect then 1 else 0),
              wrong = (if isCorrect then 0 else 1),
              recentMisses = (if isCorrect then [] else [clock w (ticks w)]),
              lastSeen = clock w (ticks w),
              consecutiveCorrect = (if isCorrect then 1 else 0),
              consecutiveWrong = (if isCorrect then 0 else 1)\<rparr>)
   \<and> (\<forall>e. getCharacterWeight char w = Some e \<longrightarrow>
      getCharacterWeight char (updateCharacterWeight char isCorrect w) =
        Some (if isCorrect
              then \<lparr>correct = correct e + 1,
                    wrong = wrong e,
                    recentMisses = recentMisses e,
                    lastSeen = clock w (ticks w),
                    consecutiveCorrect = consecutiveCorrect e + 1,
                    consecutiveWrong = 0\<rparr>
              else \<lparr>correct = correct e,
                    wrong = wrong e + 1,
                    recentMisses =
                      filter (\<lambda>t. clock w (ticks w) - t < 120000)
                        (recentMisses e @ [clock w (ticks w)]),
                    lastSeen = clock w (ticks w),
                    consecutiveCorrect = 0,
                    consecutiveWrong = consecutiveWrong e + 1\<rparr>))"
proof (cases isCorrect)
  case True
  then show ?thesis
    by (simp add: getCharacterWeight_def updateCharacterWeight_new updateCharacterWeight_correct)
next
  case False
  then show ?thesis
    by (simp add: getCharacterWeight_def updateCharacterWeight_new updateCharacterWeight_wrong)
qed

theorem updateCharacterWeight_record_witness:
  "getCharacterWeight ''a''
     (updateCharacterWeight ''a'' False (createAdaptiveSelector (\<lambda>n. int n * 100000) (\<lambda>n. 0))) =
     Some \<lparr>correct = 0, wrong = 1, recentMisses = [0], lastSeen = 0,
           consecutiveCorrect = 0, consecutiveWrong = 1\<rparr>
   \<and> getCharacterWeight ''a''
     (updateCharacterWeight ''a'' False
       \<lparr>characterWeights = [''a'' \<mapsto>
            \<lparr>correct = 2, wrong = 1, recentMisses = [0, 100000], lastSeen = 150000,
             consecutiveCorrect = 2, consecutiveWrong = 0\<rparr>],
        clock = (\<lambda>n. 200000), ticks = 5, draws = (\<lambda>n. 0), drawn = 0\<rparr>) =
     Some \<lparr>correct = 2, wrong = 2, recentMisses = [100000, 200000], lastSeen = 200000,
           consecutiveCorrect = 0, consecutiveWrong = 1\<rparr>"
  using updateCharacterWeight_record
      [of "''a''" "createAdaptiveSelector (\<lambda>n. int n * 100000) (\<lambda>n. 0)" False]
    updateCharacterWeight_record
      [of "''a''" "\<lparr>characterWeights = [''a'' \<mapsto>
            \<lparr>correct = 2, wrong = 1, recentMisses = [0, 100000], lastSeen = 150000,
             consecutiveCorrect = 2, consecutiveWrong = 0\<rparr>],
        clock = (\<lambda>n. 200000), ticks = 5, draws = (\<lambda>n. 0), drawn = 0\<rparr>" False]
  by (simp add: getCharacterWeight_def createAdaptiveSelector_def)

subsection \<open>Selection reads the records and never writes them\<close>

lemma calculateWeight_frame:
  "characterWeights (snd (calculateWeight char allChars w)) = characterWeights w"
  by (simp add: calculateWeight_def Date_now_def explorationFactor_def random_real_def
      split: option.split prod.split)

lemma weights_of_Cons:
  "weights_of (c # cs) chars w =
     ((c, fst (calculateWeight c chars w)) #
        fst (weights_of cs chars (snd (calculateWeight c chars w))),
      snd (weights_of cs chars (snd (calculateWeight c chars w))))"
  by (simp add: case_prod_unfold Let_def)

lemma weights_of_frame:
  "characterWeights (snd (weights_of cs chars w)) = characterWeights w"
proof (induction cs arbitrary: w)
  case Nil
  show ?case by simp
next
  case (Cons c cs)
  have "characterWeights (snd (weights_of cs chars (snd (calculateWeight c chars w)))) =
        characterWeights (snd (calculateWeight c chars w))"
    by (rule Cons.IH)
  then show ?case
    by (simp only: weights_of_Cons snd_conv calculateWeight_frame)
qed

lemma selectWeightedCharacter_frame:
  "characterWeights (snd (selectWeightedCharacter chars excludeChar w)) = characterWeights w"
proof -
  let ?av = "availableChars chars excludeChar"
  obtain ws w1 where ws: "weights_of ?av chars w = (ws, w1)"
    by (cases "weights_of ?av chars w")
  then have "characterWeights w1 = characterWeights w"
    using weights_of_frame [of ?av chars w] by simp
  with ws show ?thesis
    by (simp add: selectWeightedCharacter_def Let_def random_real_def random_integer_def
        split: option.split)
qed

text \<open>
  Claim C10. A call of \<^verbatim>\<open>selectWeightedCharacter\<close> leaves the map of records as it
  was, so \<^verbatim>\<open>getCharacterWeight\<close> returns the same record, or none, for every
  character before and after it, whatever the pool, the excluded character, the
  clock and the draws are; and reading a record with \<^verbatim>\<open>getCharacterWeight\<close> changes
  nothing either. Of the five methods only the other three write the map.
\<close>

theorem selectWeightedCharacter_reads_only:
  "characterWeights (snd (selectWeightedCharacter chars excludeChar w)) = characterWeights w
   \<and> getCharacterWeight c (snd (selectWeightedCharacter chars excludeChar w)) =
       getCharacterWeight c w
   \<and> characterWeights (perform w (SelectWeightedCharacter chars excludeChar)) =
       characterWeights w
   \<and> characterWeights (perform w (GetCharacterWeight c)) = characterWeights w"
  by (simp add: selectWeightedCharacter_frame getCharacterWeight_def)

subsection \<open>What selection returns\<close>

lemma at_index_mem: "at_index xs i = Some c \<Longrightarrow> c \<in> set xs"
  by (auto simp: at_index_def split: if_splits)

lemma at_index_0: "xs \<noteq> [] \<Longrightarrow> at_index xs 0 = Some (hd xs)"
  by (cases xs) (simp_all add: at_index_def)

lemma weights_of_chars: "map fst (fst (weights_of cs chars w)) = cs"
  by (induction cs arbitrary: w) (simp_all only: weights_of.simps(1) weights_of_Cons fst_conv list.map)

lemma walk_mem: "walk rv ws = Some c \<Longrightarrow> c \<in> fst ` set ws"
  by (induction rv ws rule: walk.induct) (auto simp: Let_def split: if_splits)

lemma selectWeightedCharacter_mem:
  assumes "fst (selectWeightedCharacter chars excludeChar w) = Some c"
    and "availableChars chars excludeChar \<noteq> []"
  shows "c \<in> set (availableChars chars excludeChar)"
proof -
  let ?av = "availableChars chars excludeChar"
  obtain ws w1 where ws: "weights_of ?av chars w = (ws, w1)"
    by (cases "weights_of ?av chars w")
  then have fst_ws: "fst ` set ws = set ?av"
    using weights_of_chars [of ?av chars w] by (metis fst_conv set_map)
  show ?thesis
  proof (cases "length ?av = 1")
    case True
    with assms show ?thesis
      by (auto simp: selectWeightedCharacter_def Let_def dest: at_index_mem)
  next
    case False
    with assms ws fst_ws show ?thesis
      by (auto simp: selectWeightedCharacter_def Let_def random_real_def random_integer_def
          split: option.splits dest: at_index_mem walk_mem)
  qed
qed

lemma availableChars_truthy:
  "x \<noteq> [] \<Longrightarrow> availableChars chars (Some x) = filter (\<lambda>c. c \<noteq> x) chars"
  by (simp add: availableChars_def)

lemma availableChars_falsy:
  "\<not> truthy excludeChar \<Longrightarrow> availableChars chars excludeChar = chars"
  by (simp add: availableChars_def)

lemma availableChars_subset: "set (availableChars chars excludeChar) \<subseteq> set chars"
  by (auto simp: availableChars_def)

text \<open>
  Claim C4, as amended. When the excluded character \<open>x\<close> is not the empty string
  and the pool holds a character other than \<open>x\<close> (so in particular when it holds two
  distinct characters, \<open>x\<close> among them), \<^verbatim>\<open>selectWeightedCharacter\<close> does not
  return \<open>x\<close>, whatever the records, the clock and the draws are.
\<close>

theorem selectWeightedCharacter_excludes:
  assumes "x \<noteq> []" and "\<exists>y \<in> set chars. y \<noteq> x"
  shows "fst (selectWeightedCharacter chars (Some x) w) \<noteq> Some x"
proof
  assume r: "fst (selectWeightedCharacter chars (Some x) w) = Some x"
  from assms have av: "availableChars chars (Some x) = filter (\<lambda>c. c \<noteq> x) chars"
    by (simp add: availableChars_truthy)
  from assms(2) have "filter (\<lambda>c. c \<noteq> x) chars \<noteq> []"
    by (simp add: filter_empty_conv)
  with av have "availableChars chars (Some x) \<noteq> []" by simp
  with r have "x \<in> set (availableChars chars (Some x))"
    by (rule selectWeightedCharacter_mem)
  with av show False by simp
qed

theorem selectWeightedCharacter_excludes_witness:
  "fst (selectWeightedCharacter [''a'', ''b'', ''a''] (Some ''a'')
          (createAdaptiveSelector (\<lambda>n. 0) (\<lambda>n. 0))) = Some ''b''"
proof -
  have "fst (selectWeightedCharacter [''a'', ''b'', ''a''] (Some ''a'')
          (createAdaptiveSelector (\<lambda>n. 0) (\<lambda>n. 0))) \<noteq> Some ''a''"
    by (rule selectWeightedCharacter_excludes) simp_all
  then show ?thesis
    by (simp add: selectWeightedCharacter_def availableChars_def at_index_def)
qed

text \<open>
  Claim C4 as stated fails for the empty string: as a condition it is falsy, so
  nothing is excluded. With the pool of the two distinct characters \<open>''''\<close> and
  \<open>''a''\<close>, no records and the draw 1/4, both weigh 1.0, the random value is 0.5,
  and excluding \<open>''''\<close> returns \<open>''''\<close>.
\<close>

theorem selectWeightedCharacter_excludes_counterexample:
  "'''' \<in> set ['''', ''a''] \<and> ''a'' \<in> set ['''', ''a''] \<and> ''a'' \<noteq> ''''
   \<and> fst (selectWeightedCharacter ['''', ''a''] (Some '''')
          (createAdaptiveSelector (\<lambda>n. 0) (\<lambda>n. 1/4))) = Some ''''"
  by (simp add: selectWeightedCharacter_def availableChars_def createAdaptiveSelector_def
      calculateWeight_def Date_now_def totalWeight_def random_real_def)

subsection \<open>The shortcuts of selection\<close>

text \<open>
  Claim C7, as amended. Take a pool that is not empty and an excluded character \<open>x\<close>
  that is not the empty string. When every character of the pool is \<open>x\<close>, so that
  excluding \<open>x\<close> leaves no candidate, \<^verbatim>\<open>selectWeightedCharacter\<close> returns the first
  character of the pool as it was given; when excluding \<open>x\<close> leaves exactly one
  candidate, it returns that candidate. When nothing is to be excluded and the pool
  holds one character, it returns that character. A pool of one character returns
  its character whatever is excluded. In all these cases the clock is not read and
  nothing is drawn (the world is returned as it was), and the records play no part.
\<close>

theorem selectWeightedCharacter_shortcuts:
  assumes "chars \<noteq> []"
  shows "(x \<noteq> [] \<and> filter (\<lambda>c. c \<noteq> x) chars = [] \<longrightarrow>
            selectWeightedCharacter chars (Some x) w = (Some (hd chars), w))
       \<and> (length chars = 1 \<longrightarrow>
            selectWeightedCharacter chars excludeChar w = (Some (hd chars), w))
       \<and> (x \<noteq> [] \<and> filter (\<lambda>c. c \<noteq> x) chars = [d] \<longrightarrow>
            selectWeightedCharacter chars (Some x) w = (Some d, w))
       \<and> (chars = [d] \<longrightarrow>
            selectWeightedCharacter chars None w = (Some d, w))"
proof (intro conjI impI)
  assume "x \<noteq> [] \<and> filter (\<lambda>c. c \<noteq> x) chars = []"
  then have "availableChars chars (Some x) = []"
    by (simp add: availableChars_truthy)
  with assms show "selectWeightedCharacter chars (Some x) w = (Some (hd chars), w)"
    by (simp add: selectWeightedCharacter_def at_index_0)
next
  assume "x \<noteq> [] \<and> filter (\<lambda>c. c \<noteq> x) chars = [d]"
  then have "availableChars chars (Some x) = [d]"
    by (simp add: availableChars_truthy)
  then show "selectWeightedCharacter chars (Some x) w = (Some d, w)"
    by (simp add: selectWeightedCharacter_def at_index_def)
next
  assume "chars = [d]"
  then have "availableChars chars None = [d]"
    by (simp add: availableChars_def)
  then show "selectWeightedCharacter chars None w = (Some d, w)"
    by (simp add: selectWeightedCharacter_def at_index_def)
next
  assume "length chars = 1"
  then obtain a where a: "chars = [a]"
    by (cases chars) simp_all
  show "selectWeightedCharacter chars excludeChar w = (Some (hd chars), w)"
    unfolding a
    by (simp add: selectWeightedCharacter_def availableChars_def at_index_def)
qed

theorem selectWeightedCharacter_shortcuts_witness:
  "selectWeightedCharacter [''a'', ''a''] (Some ''a'') (createAdaptiveSelector (\<lambda>n. 0) (\<lambda>n. 0)) =
     (Some ''a'', createAdaptiveSelector (\<lambda>n. 0) (\<lambda>n. 0))
   \<and> selectWeightedCharacter [''a''] (Some ''a'') (createAdaptiveSelector (\<lambda>n. 0) (\<lambda>n. 0)) =
     (Some ''a'', createAdaptiveSelector (\<lambda>n. 0) (\<lambda>n. 0))
   \<and> selectWeightedCharacter [''a'', ''b'', ''a''] (Some ''a'')
         (createAdaptiveSelector (\<lambda>n. 0) (\<lambda>n. 0)) =
     (Some ''b'', createAdaptiveSelector (\<lambda>n. 0) (\<lambda>n. 0))
   \<and> selectWeightedCharacter [''a''] None (createAdaptiveSelector (\<lambda>n. 0) (\<lambda>n. 0)) =
     (Some ''a'', createAdaptiveSelector (\<lambda>n. 0) (\<lambda>n. 0))"
proof -
  let ?w = "createAdaptiveSelector (\<lambda>n. 0) (\<lambda>n. 0)"
  have "selectWeightedCharacter [''a'', ''a''] (Some ''a'') ?w = (Some ''a'', ?w)"
    using selectWeightedCharacter_shortcuts
      [where chars = "[''a'', ''a'']" and x = "''a''" and w = ?w
         and excludeChar = "Some ''a''" and d = "''a''"]
    by simp
  moreover have "selectWeightedCharacter [''a''] (Some ''a'') ?w = (Some ''a'', ?w)"
    using selectWeightedCharacter_shortcuts
      [where chars = "[''a'']" and x = "''a''" and w = ?w
         and excludeChar = "Some ''a''" and d = "''a''"]
    by simp
  moreover have "selectWeightedCharacter [''a'', ''b'', ''a''] (Some ''a'') ?w = (Some ''b'', ?w)"
    using selectWeightedCharacter_shortcuts
      [where chars = "[''a'', ''b'', ''a'']" and x = "''a''" and w = ?w
         and excludeChar = "Some ''a''" and d = "''b''"]
    by simp
  moreover have "selectWeightedCharacter [''a''] None ?w = (Some ''a'', ?w)"
    using selectWeightedCharacter_shortcuts
      [where chars = "[''a'']" and x = "''a''" and w = ?w
         and excludeChar = "None" and d = "''a''"]
    by simp
  ultimately show ?thesis by blast
qed

text \<open>
  Claim C7 as stated fails when the excluded character is the empty string. In the
  pool of \<open>''''\<close> and \<open>''a''\<close>, excluding \<open>''''\<close> leaves exactly the one candidate
  \<open>''a''\<close>. The empty string is falsy, so nothing is excluded: both characters are
  weighed (the clock is read twice), the generator is drawn from once, and with
  the draw 1/4 the character returned is \<open>''''\<close>, not the one candidate.
\<close>

theorem selectWeightedCharacter_shortcuts_counterexample:
  "filter (\<lambda>c. c \<noteq> '''') ['''', ''a''] = [''a'']
   \<and> selectWeightedCharacter ['''', ''a''] (Some '''')
         (createAdaptiveSelector (\<lambda>n. 0) (\<lambda>n. 1/4)) =
       (Some '''',
        (createAdaptiveSelector (\<lambda>n. 0) (\<lambda>n. 1/4))\<lparr>ticks := 2, drawn := 1\<rparr>)
   \<and> selectWeightedCharacter ['''', ''a''] (Some '''')
         (createAdaptiveSelector (\<lambda>n. 0) (\<lambda>n. 1/4)) \<noteq>
       (Some ''a'', createAdaptiveSelector (\<lambda>n. 0) (\<lambda>n. 1/4))"
  by (simp add: selectWeightedCharacter_def availableChars_def createAdaptiveSelector_def
      calculateWeight_def Date_now_def totalWeight_def random_real_def)

subsection \<open>The consecutive counters\<close>

lemma markCharacterSeen_None:
  assumes "characterWeights w char = None"
  shows "markCharacterSeen char w =
     w\<lparr>ticks := Suc (ticks w),
       characterWeights := (characterWeights w)(char \<mapsto>
         \<lparr>correct = 0, wrong = 0, recentMisses = [], lastSeen = clock w (ticks w),
          consecutiveCorrect = 0, consecutiveWrong = 0\<rparr>)\<rparr>"
  using assms by (simp add: markCharacterSeen_def Date_now_def)

lemma markCharacterSeen_Some:
  assumes "characterWeights w char = Some e"
  shows "markCharacterSeen char w =
     w\<lparr>ticks := Suc (ticks w),
       characterWeights := (characterWeights w)(char \<mapsto> e\<lparr>lastSeen := clock w (ticks w)\<rparr>)\<rparr>"
  using assms by (simp add: markCharacterSeen_def Date_now_def)

lemma updateCharacterWeight_exclusive:
  assumes inv: "\<And>c r. characterWeights w c = Some r \<Longrightarrow>
                  consecutiveCorrect r = 0 \<or> consecutiveWrong r = 0"
    and r: "characterWeights (updateCharacterWeight char isCorrect w) c = Some r"
  shows "consecutiveCorrect r = 0 \<or> consecutiveWrong r = 0"
proof (cases "characterWeights w char")
  case None
  with r inv [of c r] show ?thesis
    by (auto simp: updateCharacterWeight_new split: if_splits)
next
  case (Some e)
  show ?thesis
  proof (cases isCorrect)
    case True
    with Some r inv [of c r] show ?thesis
      by (auto simp: updateCharacterWeight_correct split: if_splits)
  next
    case False
    with Some r inv [of c r] show ?thesis
      by (auto simp: updateCharacterWeight_wrong split: if_splits)
  qed
qed

lemma markCharacterSeen_exclusive:
  assumes inv: "\<And>c r. characterWeights w c = Some r \<Longrightarrow>
                  consecutiveCorrect r = 0 \<or> consecutiveWrong r = 0"
    and r: "characterWeights (markCharacterSeen char w) c = Some r"
  shows "consecutiveCorrect r = 0 \<or> consecutiveWrong r = 0"
proof (cases "characterWeights w char")
  case None
  with r inv [of c r] show ?thesis
    by (auto simp: markCharacterSeen_None split: if_splits)
next
  case (Some e)
  with r inv [of c r] inv [of char e] show ?thesis
    by (auto simp: markCharacterSeen_Some split: if_splits)
qed

lemma perform_exclusive:
  assumes inv: "\<And>c r. characterWeights w c = Some r \<Longrightarrow>
                  consecutiveCorrect r = 0 \<or> consecutiveWrong r = 0"
    and r: "characterWeights (perform w call) c = Some r"
  shows "consecutiveCorrect r = 0 \<or> consecutiveWrong r = 0"
proof (cases call)
  case (SelectWeightedCharacter chars excludeChar)
  with r inv [of c r] show ?thesis by (simp add: selectWeightedCharacter_frame)
next
  case (UpdateCharacterWeight char isCorrect)
  with r show ?thesis
    using updateCharacterWeight_exclusive [of w char isCorrect c r] inv by simp
next
  case (MarkCharacterSeen char)
  with r show ?thesis
    using markCharacterSeen_exclusive [of w char c r] inv by simp
next
  case Reset
  with r show ?thesis by (simp add: reset_def)
next
  case (GetCharacterWeight char)
  with r inv [of c r] show ?thesis by simp
qed

lemma foldl_perform_exclusive:
  assumes "\<And>c r. characterWeights w c = Some r \<Longrightarrow>
              consecutiveCorrect r = 0 \<or> consecutiveWrong r = 0"
    and "characterWeights (foldl perform w calls) c = Some r"
  shows "consecutiveCorrect r = 0 \<or> consecutiveWrong r = 0"
  using assms
proof (induction calls arbitrary: w c r)
  case Nil
  then show ?case by simp
next
  case (Cons call calls)
  have step: "consecutiveCorrect r' = 0 \<or> consecutiveWrong r' = 0"
    if h: "characterWeights (perform w call) c' = Some r'" for c' r'
  proof (rule perform_exclusive [OF _ h])
    fix d e
    assume "characterWeights w d = Some e"
    then show "consecutiveCorrect e = 0 \<or> consecutiveWrong e = 0"
      by (rule Cons.prems(1))
  qed
  from Cons.prems(2) have "characterWeights (foldl perform (perform w call) calls) c = Some r"
    by simp
  with step show ?case by (rule Cons.IH)
qed

text \<open>
  Claim C8. Start from a selector without records and call its methods in any order,
  any number of times, at any times and with any draws (recording answers, marking
  characters as seen, resetting; selecting and reading records as well). In the
  state reached, every record has \<open>consecutiveCorrect = 0\<close> or \<open>consecutiveWrong = 0\<close>.
\<close>

theorem consecutive_counters_exclusive:
  assumes "characterWeights w = Map.empty"
    and "getCharacterWeight c (run calls w) = Some r"
  shows "consecutiveCorrect r = 0 \<or> consecutiveWrong r = 0"
proof -
  have "\<And>c r. characterWeights w c = Some r \<Longrightarrow>
          consecutiveCorrect r = 0 \<or> consecutiveWrong r = 0"
    using assms(1) by simp
  moreover have "characterWeights (foldl perform w calls) c = Some r"
    using assms(2) by (simp add: getCharacterWeight_def run_def)
  ultimately show ?thesis by (rule foldl_perform_exclusive)
qed

theorem consecutive_counters_exclusive_witness:
  "getCharacterWeight ''a''
     (run [UpdateCharacterWeight ''a'' True, UpdateCharacterWeight ''a'' True,
           MarkCharacterSeen ''a'', UpdateCharacterWeight ''a'' False]
        (createAdaptiveSelector (\<lambda>n. int n * 1000) (\<lambda>n. 0))) =
     Some \<lparr>correct = 2, wrong = 1, recentMisses = [3000], lastSeen = 3000,
           consecutiveCorrect = 0, consecutiveWrong = 1\<rparr>
   \<and> (consecutiveCorrect \<lparr>correct = 2, wrong = 1, recentMisses = [3000], lastSeen = 3000,
           consecutiveCorrect = 0, consecutiveWrong = 1\<rparr> = 0
      \<or> consecutiveWrong \<lparr>correct = 2, wrong = 1, recentMisses = [3000], lastSeen = 3000,
           consecutiveCorrect = 0, consecutiveWrong = 1\<rparr> = 0)"
proof -
  let ?w = "createAdaptiveSelector (\<lambda>n. int n * 1000) (\<lambda>n. 0)"
  let ?calls = "[UpdateCharacterWeight ''a'' True, UpdateCharacterWeight ''a'' True,
           MarkCharacterSeen ''a'', UpdateCharacterWeight ''a'' False]"
  let ?r = "\<lparr>correct = 2, wrong = 1, recentMisses = [3000], lastSeen = 3000,
           consecutiveCorrect = 0, consecutiveWrong = 1\<rparr>"
  have e: "characterWeights ?w = Map.empty"
    by (simp add: createAdaptiveSelector_def)
  have g: "getCharacterWeight ''a'' (run ?calls ?w) = Some ?r"
    by (simp add: run_def getCharacterWeight_def createAdaptiveSelector_def
        updateCharacterWeight_def markCharacterSeen_def Date_now_def)
  from g consecutive_counters_exclusive [OF e g] show ?thesis by simp
qed

subsection \<open>Three misses in a row\<close>

lemma missBoost_ge: "acc \<le> missBoost now acc t"
  by (simp add: missBoost_def Let_def)

lemma foldl_missBoost_ge: "acc \<le> foldl (missBoost now) acc ts"
proof (induction ts arbitrary: acc)
  case Nil
  show ?case by simp
next
  case (Cons t ts)
  have "acc \<le> missBoost now acc t" by (rule missBoost_ge)
  also have "\<dots> \<le> foldl (missBoost now) (missBoost now acc t) ts" by (rule Cons.IH)
  finally show ?case by simp
qed

lemma recentMissWeight_nonneg: "0 \<le> recentMissWeight now ts"
  unfolding recentMissWeight_def by (rule foldl_missBoost_ge)

lemma recentMissWeight_last_fresh:
  assumes "real_of_int (now - t) / 1000 < 30"
  shows "1/2 \<le> recentMissWeight now (ts @ [t])"
proof -
  have "0 \<le> foldl (missBoost now) 0 ts" by (rule foldl_missBoost_ge)
  moreover have "recentMissWeight now (ts @ [t]) = foldl (missBoost now) 0 ts + 1/2"
    using assms by (simp add: recentMissWeight_def missBoost_def)
  ultimately show ?thesis by simp
qed

lemma streakPenalty_3: "67/50 \<le> streakPenalty 3"
proof -
  have "17/10 \<le> sqrt (3::real)"
    by (rule real_le_rsqrt) (simp add: power2_eq_square)
  then show ?thesis by (simp add: streakPenalty_def)
qed

lemma updateCharacterWeight_env:
  "ticks (updateCharacterWeight char isCorrect w) = Suc (ticks w)
   \<and> clock (updateCharacterWeight char isCorrect w) = clock w
   \<and> draws (updateCharacterWeight char isCorrect w) = draws w
   \<and> drawn (updateCharacterWeight char isCorrect w) = drawn w"
  by (simp add: updateCharacterWeight_def Date_now_def Let_def split: option.split)

lemma updateCharacterWeight_wrong_first:
  assumes "characterWeights w char = None"
  shows "characterWeights (updateCharacterWeight char False w) char =
     Some \<lparr>correct = 0, wrong = Suc 0, recentMisses = [] @ [clock w (ticks w)],
           lastSeen = clock w (ticks w), consecutiveCorrect = 0, consecutiveWrong = Suc 0\<rparr>"
  using assms by (simp add: updateCharacterWeight_new)

lemma updateCharacterWeight_wrong_again:
  assumes "characterWeights w char = Some e"
  shows "\<exists>ms. characterWeights (updateCharacterWeight char False w) char =
     Some \<lparr>correct = correct e, wrong = Suc (wrong e),
           recentMisses = ms @ [clock w (ticks w)],
           lastSeen = clock w (ticks w),
           consecutiveCorrect = 0, consecutiveWrong = Suc (consecutiveWrong e)\<rparr>"
  by (rule exI [of _ "filter (\<lambda>t. clock w (ticks w) - t < 120000) (recentMisses e)"])
     (simp add: updateCharacterWeight_wrong [OF assms])

lemma three_wrong:
  assumes "characterWeights w char = None"
  shows "\<exists>ms. characterWeights
           (run [UpdateCharacterWeight char False, UpdateCharacterWeight char False,
                 UpdateCharacterWeight char False] w) char =
     Some \<lparr>correct = 0, wrong = 3,
           recentMisses = ms @ [clock w (ticks w + 2)],
           lastSeen = clock w (ticks w + 2),
           consecutiveCorrect = 0, consecutiveWrong = 3\<rparr>"
proof -
  let ?w1 = "updateCharacterWeight char False w"
  let ?w2 = "updateCharacterWeight char False ?w1"
  let ?w3 = "updateCharacterWeight char False ?w2"
  note c1 = updateCharacterWeight_wrong_first [OF assms]
  from updateCharacterWeight_wrong_again [OF c1]
  obtain m2 where c2: "characterWeights ?w2 char =
     Some \<lparr>correct = 0, wrong = Suc (Suc 0), recentMisses = m2 @ [clock ?w1 (ticks ?w1)],
           lastSeen = clock ?w1 (ticks ?w1), consecutiveCorrect = 0,
           consecutiveWrong = Suc (Suc 0)\<rparr>"
    by auto
  from updateCharacterWeight_wrong_again [OF c2]
  obtain m3 where c3: "characterWeights ?w3 char =
     Some \<lparr>correct = 0, wrong = Suc (Suc (Suc 0)), recentMisses = m3 @ [clock ?w2 (ticks ?w2)],
           lastSeen = clock ?w2 (ticks ?w2), consecutiveCorrect = 0,
           consecutiveWrong = Suc (Suc (Suc 0))\<rparr>"
    by auto
  have env: "clock ?w2 (ticks ?w2) = clock w (ticks w + 2)"
    by (simp add: updateCharacterWeight_env)
  have "run [UpdateCharacterWeight char False, UpdateCharacterWeight char False,
             UpdateCharacterWeight char False] w = ?w3"
    by (simp add: run_def)
  with c3 env show ?thesis
    by (intro exI [of _ m3]) (simp add: numeral_3_eq_3)
qed

lemma three_wrong_env:
  "ticks (run [UpdateCharacterWeight char False, UpdateCharacterWeight char False,
               UpdateCharacterWeight char False] w) = ticks w + 3
   \<and> clock (run [UpdateCharacterWeight char False, UpdateCharacterWeight char False,
               UpdateCharacterWeight char False] w) = clock w
   \<and> draws (run [UpdateCharacterWeight char False, UpdateCharacterWeight char False,
               UpdateCharacterWeight char False] w) = draws w
   \<and> drawn (run [UpdateCharacterWeight char False, UpdateCharacterWeight char False,
               UpdateCharacterWeight char False] w) = drawn w"
  by (simp add: run_def updateCharacterWeight_env)

lemma mult4_mono:
  fixes a b c d :: real
  assumes "a0 \<le> a" "b0 \<le> b" "c0 \<le> c" "d0 \<le> d"
    and "0 \<le> a0" "0 \<le> b0" "0 \<le> c0" "0 \<le> d0"
  shows "a0 * b0 * c0 * d0 \<le> a * b * c * d"
  using assms by (intro mult_mono mult_nonneg_nonneg; linarith)

lemma finalWeight_three_wrong:
  assumes "4/5 \<le> e"
  shows "1 < finalWeight \<lparr>correct = 0, wrong = 3, recentMisses = ms @ [seen],
               lastSeen = seen, consecutiveCorrect = 0, consecutiveWrong = 3\<rparr> now e"
proof -
  let ?A = "accuracyWeight 0 3"
  let ?R = "1 + recentMissWeight now (ms @ [seen])"
  let ?S = "streakPenalty 3"
  let ?F = "freshnessBoost now seen"
  have fw: "finalWeight \<lparr>correct = 0, wrong = 3, recentMisses = ms @ [seen],
               lastSeen = seen, consecutiveCorrect = 0, consecutiveWrong = 3\<rparr> now e =
            ?A * ?R * ?S * (?F * e)"
    by (simp add: finalWeight_def masteryCooldown_0)
  have A: "19/8 \<le> ?A"
    using accuracyWeight_zero_bounds(1) [of 2] by (simp add: numeral_3_eq_3)
  have S: "67/50 \<le> ?S" by (rule streakPenalty_3)
  show ?thesis
  proof (cases "real_of_int (now - seen) / 1000 < 5")
    case True
    then have "real_of_int (now - seen) / 1000 < 30" by simp
    then have R: "3/2 \<le> ?R"
      using recentMissWeight_last_fresh [of now seen ms] by simp
    from True have Fv: "?F = 3/10" by (simp add: freshnessBoost_def)
    have F: "3/10 * (4/5) \<le> ?F * e" unfolding Fv using assms by simp
    have "19/8 * (3/2) * (67/50) * (3/10 * (4/5)) \<le> ?A * ?R * ?S * (?F * e)"
      using A R S F by (rule mult4_mono) simp_all
    then show ?thesis unfolding fw by simp
  next
    case False
    have R: "1 \<le> ?R" using recentMissWeight_nonneg [of now "ms @ [seen]"] by simp
    from False have Fv: "?F = 1" by (simp add: freshnessBoost_def)
    have F: "4/5 \<le> ?F * e" unfolding Fv using assms by simp
    have "19/8 * 1 * (67/50) * (4/5) \<le> ?A * ?R * ?S * (?F * e)"
      using A R S F by (rule mult4_mono) simp_all
    then show ?thesis unfolding fw by simp
  qed
qed

text \<open>
  Claim C6. Start without records, with any clock and any generator whose next draw
  is not negative (the generator draws from 0 up to 1). Record three wrong answers
  for \<open>kana_a\<close>, at any three times, and weigh it in the pool of the three kana, at
  any time: its weight is above 1.0, which is the weight of \<open>kana_i\<close>, a character
  without a record.
\<close>

theorem three_misses_outweigh_unseen:
  assumes "characterWeights w0 = Map.empty" and "0 \<le> draws w0 (drawn w0)"
  shows "fst (calculateWeight kana_i [kana_a, kana_i, kana_u]
            (run [UpdateCharacterWeight kana_a False, UpdateCharacterWeight kana_a False,
                  UpdateCharacterWeight kana_a False] w0)) = 1.0
       \<and> 1.0 < fst (calculateWeight kana_a [kana_a, kana_i, kana_u]
            (run [UpdateCharacterWeight kana_a False, UpdateCharacterWeight kana_a False,
                  UpdateCharacterWeight kana_a False] w0))
       \<and> fst (calculateWeight kana_i [kana_a, kana_i, kana_u]
            (run [UpdateCharacterWeight kana_a False, UpdateCharacterWeight kana_a False,
                  UpdateCharacterWeight kana_a False] w0))
         < fst (calculateWeight kana_a [kana_a, kana_i, kana_u]
            (run [UpdateCharacterWeight kana_a False, UpdateCharacterWeight kana_a False,
                  UpdateCharacterWeight kana_a False] w0))"
proof -
  let ?w = "run [UpdateCharacterWeight kana_a False, UpdateCharacterWeight kana_a False,
                 UpdateCharacterWeight kana_a False] w0"
  let ?pool = "[kana_a, kana_i, kana_u]"
  have ne: "kana_i \<noteq> kana_a" by (simp add: kana_a_def kana_i_def)
  have "characterWeights ?w kana_i = None"
    using assms(1) ne
    by (simp add: run_def updateCharacterWeight_def Date_now_def Let_def split: option.split)
  then have i: "fst (calculateWeight kana_i ?pool ?w) = 1"
    by (simp add: calculateWeight_cases)
  from assms(1) have "characterWeights w0 kana_a = None" by simp
  from three_wrong [OF this] obtain ms where
    r: "characterWeights ?w kana_a =
          Some \<lparr>correct = 0, wrong = 3, recentMisses = ms @ [clock w0 (ticks w0 + 2)],
                lastSeen = clock w0 (ticks w0 + 2),
                consecutiveCorrect = 0, consecutiveWrong = 3\<rparr>"
    by blast
  have "fst (explorationFactor ?pool (?w\<lparr>ticks := Suc (ticks ?w)\<rparr>)) =
          0.8 + 0.2 * draws w0 (drawn w0)"
    by (simp add: explorationFactor_small three_wrong_env)
  with assms(2) have e: "4/5 \<le> fst (explorationFactor ?pool (?w\<lparr>ticks := Suc (ticks ?w)\<rparr>))"
    by simp
  have "1 < finalWeight \<lparr>correct = 0, wrong = 3, recentMisses = ms @ [clock w0 (ticks w0 + 2)],
                lastSeen = clock w0 (ticks w0 + 2),
                consecutiveCorrect = 0, consecutiveWrong = 3\<rparr> (clock ?w (ticks ?w))
              (fst (explorationFactor ?pool (?w\<lparr>ticks := Suc (ticks ?w)\<rparr>)))"
    using e by (rule finalWeight_three_wrong)
  then have a: "1 < fst (calculateWeight kana_a ?pool ?w)"
    by (simp add: calculateWeight_cases r)
  from i a show ?thesis by simp
qed

theorem three_misses_outweigh_unseen_witness:
  "characterWeights (createAdaptiveSelector (\<lambda>n. 0) (\<lambda>n. 0)) = Map.empty
   \<and> 0 \<le> draws (createAdaptiveSelector (\<lambda>n. 0) (\<lambda>n. 0))
            (drawn (createAdaptiveSelector (\<lambda>n. 0) (\<lambda>n. 0)))
   \<and> 1.0 < fst (calculateWeight kana_a [kana_a, kana_i, kana_u]
            (run [UpdateCharacterWeight kana_a False, UpdateCharacterWeight kana_a False,
                  UpdateCharacterWeight kana_a False]
               (createAdaptiveSelector (\<lambda>n. 0) (\<lambda>n. 0))))"
proof -
  have e: "characterWeights (createAdaptiveSelector (\<lambda>n. 0) (\<lambda>n. 0)) = Map.empty"
    by (simp add: createAdaptiveSelector_def)
  have d: "0 \<le> draws (createAdaptiveSelector (\<lambda>n. 0) (\<lambda>n. 0))
            (drawn (createAdaptiveSelector (\<lambda>n. 0) (\<lambda>n. 0)))"
    by (simp add: createAdaptiveSelector_def)
  from e d three_misses_outweigh_unseen [OF e d] show ?thesis by simp
qed

subsection \<open>Selection returns a character of the pool\<close>

lemma calculateWeight_pos: "0 < fst (calculateWeight char allChars w)"
  unfolding calculateWeight_cases
  by (cases "characterWeights w char") (simp_all add: max_def min_def)

lemma calculateWeight_draws:
  "draws (snd (calculateWeight char allChars w)) = draws w"
  by (simp add: calculateWeight_def Date_now_def explorationFactor_def random_real_def
      split: option.split prod.split)

lemma weights_of_draws: "draws (snd (weights_of cs chars w)) = draws w"
proof (induction cs arbitrary: w)
  case Nil
  show ?case by simp
next
  case (Cons c cs)
  have "draws (snd (weights_of cs chars (snd (calculateWeight c chars w)))) =
        draws (snd (calculateWeight c chars w))"
    by (rule Cons.IH)
  then show ?case
    by (simp only: weights_of_Cons snd_conv calculateWeight_draws)
qed

lemma weights_of_pos: "\<forall>cw \<in> set (fst (weights_of cs chars w)). 0 < snd cw"
proof (induction cs arbitrary: w)
  case Nil
  show ?case by simp
next
  case (Cons c cs)
  from Cons.IH [of "snd (calculateWeight c chars w)"] show ?case
    by (simp only: weights_of_Cons fst_conv) (simp add: calculateWeight_pos)
qed

lemma foldl_add_snd:
  "foldl (\<lambda>sum cw. sum + snd cw) a ws = a + sum_list (map snd ws)"
  for a :: real
  by (induction ws arbitrary: a) simp_all

lemma totalWeight_sum: "totalWeight ws = sum_list (map snd ws)"
  by (simp add: totalWeight_def foldl_add_snd)

lemma walk_hits:
  assumes "ws \<noteq> []" and "rv \<le> sum_list (map snd ws)"
  shows "\<exists>c. walk rv ws = Some c"
  using assms
proof (induction rv ws rule: walk.induct)
  case (1 rv)
  then show ?case by simp
next
  case (2 rv c wt rest)
  show ?case
  proof (cases "rv - wt \<le> 0")
    case True
    then show ?thesis by simp
  next
    case False
    with "2.prems" have "rest \<noteq> []" by auto
    moreover from "2.prems" have "rv - wt \<le> sum_list (map snd rest)" by simp
    ultimately have "\<exists>d. walk (rv - wt) rest = Some d"
      using "2.IH" False by simp
    with False show ?thesis by simp
  qed
qed

text \<open>
  With a pool that is not empty and draws that are at most 1, as the generator's
  are, the loop of \<^verbatim>\<open>selectWeightedCharacter\<close> always hits, and a character of the
  pool is returned: the fallback after the loop is never reached.
\<close>

lemma selectWeightedCharacter_returns:
  assumes "chars \<noteq> []" and "\<And>n. draws w n \<le> 1"
  shows "\<exists>c \<in> set chars. fst (selectWeightedCharacter chars excludeChar w) = Some c"
proof -
  let ?av = "availableChars chars excludeChar"
  consider "?av = []" | "length ?av = 1" | "?av \<noteq> []" "length ?av \<noteq> 1" by blast
  then show ?thesis
  proof cases
    case 1
    with assms(1) show ?thesis
      by (cases chars) (simp_all add: selectWeightedCharacter_def at_index_def)
  next
    case 2
    then obtain a where a: "?av = [a]"
      by (cases ?av) simp_all
    then have "a \<in> set chars" using availableChars_subset [of chars excludeChar] by simp
    with a show ?thesis
      by (simp add: selectWeightedCharacter_def at_index_def)
  next
    case 3
    obtain ws w1 where ws: "weights_of ?av chars w = (ws, w1)"
      by (cases "weights_of ?av chars w")
    from ws 3 have ne: "ws \<noteq> []"
      using weights_of_chars [of ?av chars w] by auto
    from ws have pos: "\<forall>cw \<in> set ws. 0 < snd cw"
      using weights_of_pos [of ?av chars w] by simp
    then have "0 \<le> sum_list (map snd ws)"
      by (intro sum_list_nonneg) auto
    moreover from ws have "draws w1 (drawn w1) \<le> 1"
      using weights_of_draws [of ?av chars w] assms(2) by simp
    ultimately have "draws w1 (drawn w1) * sum_list (map snd ws) \<le> sum_list (map snd ws)"
      using mult_right_mono [of "draws w1 (drawn w1)" 1 "sum_list (map snd ws)"] by simp
    then have "fst (random_real 0 (totalWeight ws) w1) \<le> sum_list (map snd ws)"
      by (simp add: random_real_def totalWeight_sum)
    with ne obtain c where c: "walk (fst (random_real 0 (totalWeight ws) w1)) ws = Some c"
      using walk_hits by blast
    then have "c \<in> fst ` set ws" by (rule walk_mem)
    with ws have "c \<in> set ?av"
      using weights_of_chars [of ?av chars w] by (metis fst_conv set_map)
    then have "c \<in> set chars" using availableChars_subset [of chars excludeChar] by auto
    moreover from 3 ws c have "fst (selectWeightedCharacter chars excludeChar w) = Some c"
      by (simp add: selectWeightedCharacter_def Let_def case_prod_unfold)
    ultimately show ?thesis by blast
  qed
qed

end
